theory Spec2Isabelle
  imports Main "HOL-Library.Word"
begin

section \<open>Time\<close>

text \<open>
  The package \<^verbatim>\<open>time\<close> of the Go standard library, as far as \<^verbatim>\<open>grant.go\<close> uses it.
  A \<^verbatim>\<open>time.Time\<close> is an instant, kept here as its count of nanoseconds since the Unix
  epoch; a \<^verbatim>\<open>time.Duration\<close> is an \<^verbatim>\<open>int64\<close> count of nanoseconds, so sums and
  products of durations wrap around at 64 bits. Instants are unbounded integers: the
  saturation of \<^verbatim>\<open>Time.Add\<close> at the ends of its range (hundreds of billions of years
  from the epoch) is outside this model.
\<close>

type_synonym Time = int

type_synonym Duration = "64 word"

definition time_Second :: Duration where
  "time_Second = 1000000000"

definition time_Unix :: "int \<Rightarrow> int \<Rightarrow> Time" where
  "time_Unix sec nsec = sec * 1000000000 + nsec"

text \<open>The zero value of \<^verbatim>\<open>time.Time\<close>: January 1 of year 1, 00:00 UTC.\<close>

definition time_zero :: Time where
  "time_zero = time_Unix (- 62135596800) 0"

definition time_Add :: "Time \<Rightarrow> Duration \<Rightarrow> Time" where
  "time_Add t d = t + sint d"

definition time_After :: "Time \<Rightarrow> Time \<Rightarrow> bool" where
  "time_After t u = (u < t)"

section \<open>Errors\<close>

text \<open>
  Go's \<^verbatim>\<open>error\<close> values. \<open>EOF\<close> and \<open>ErrUnexpectedEOF\<close> are those of package
  \<^verbatim>\<open>io\<close>; \<open>SyntaxError\<close>, \<open>UnmarshalTypeError\<close> (the JSON value met, the Go field
  it was meant for) and \<open>UnsupportedTypeError\<close> those of \<^verbatim>\<open>encoding/json\<close>;
  \<open>NetError\<close> is a failure of the transport, by its message. \<open>Fundamental\<close> is what
  \<^verbatim>\<open>errors.Errorf\<close> of \<^verbatim>\<open>github.com/pkg/errors\<close> builds and \<open>WithMessage\<close> what
  \<^verbatim>\<open>errors.Wrap\<close> builds around a cause.
\<close>

datatype error =
    EOF
  | ErrUnexpectedEOF
  | SyntaxError
  | UnmarshalTypeError string string
  | UnsupportedTypeError
  | NetError string
  | Fundamental string
  | WithMessage error string

definition errors_Wrap :: "error \<Rightarrow> string \<Rightarrow> error" where
  "errors_Wrap err message = WithMessage err message"

text \<open>\<^verbatim>\<open>errors.Errorf\<close>, given the message its format and arguments make.\<close>

definition errors_Errorf :: "string \<Rightarrow> error" where
  "errors_Errorf message = Fundamental message"

section \<open>JSON\<close>

text \<open>
  The package \<^verbatim>\<open>encoding/json\<close> of the Go standard library, as far as the program
  uses it: \<^verbatim>\<open>json.Marshal\<close> of a struct of strings and
  \<^verbatim>\<open>json.NewDecoder(r).Decode\<close> into a struct of strings and an \<^verbatim>\<open>int64\<close>. Texts
  are byte strings. A JSON number keeps its literal. Two things the library does are
  outside this model: bytes that are not well-formed UTF-8 are kept as they are (the
  library writes U+FFFD for them, and escapes U+2028 and U+2029 when it encodes), and
  nesting has no depth limit.
\<close>

datatype json =
    JNull
  | JBool bool
  | JNumber string
  | JString string
  | JArray "json list"
  | JObject "(string \<times> json) list"

definition byte :: "char \<Rightarrow> nat" where
  "byte c = of_char c"

definition is_space :: "char \<Rightarrow> bool" where
  "is_space c = (c = CHR '' '' \<or> c = CHR 0x09 \<or> c = CHR 0x0D \<or> c = CHR 0x0A)"

definition is_digit :: "char \<Rightarrow> bool" where
  "is_digit c = (48 \<le> byte c \<and> byte c \<le> 57)"

definition hex_value :: "char \<Rightarrow> nat option" where
  "hex_value c =
     (let n = byte c in
      if 48 \<le> n \<and> n \<le> 57 then Some (n - 48)
      else if 97 \<le> n \<and> n \<le> 102 then Some (n - 87)
      else if 65 \<le> n \<and> n \<le> 70 then Some (n - 55)
      else None)"

definition hex_digit :: "nat \<Rightarrow> char" where
  "hex_digit n = ''0123456789abcdef'' ! (n mod 16)"

subsection \<open>Encoding\<close>

definition escape_byte :: "char \<Rightarrow> string" where
  "escape_byte c =
     (if c = CHR 0x22 \<or> c = CHR 0x5C then [CHR 0x5C, c]
      else if c = CHR 0x0A then [CHR 0x5C, CHR ''n'']
      else if c = CHR 0x0D then [CHR 0x5C, CHR ''r'']
      else if c = CHR 0x09 then [CHR 0x5C, CHR ''t'']
      else if byte c < 32 \<or> c = CHR ''<'' \<or> c = CHR ''>'' \<or> c = CHR ''&''
        then [CHR 0x5C, CHR ''u'', CHR ''0'', CHR ''0'', hex_digit (byte c div 16), hex_digit (byte c)]
      else [c])"

definition quote :: "string \<Rightarrow> string" where
  "quote s = CHR 0x22 # concat (map escape_byte s) @ [CHR 0x22]"

fun intersperse :: "'a list \<Rightarrow> 'a list list \<Rightarrow> 'a list" where
  "intersperse sep [] = []"
| "intersperse sep [x] = x"
| "intersperse sep (x # y # zs) = x @ sep @ intersperse sep (y # zs)"

fun json_encode :: "json \<Rightarrow> string" where
  "json_encode JNull = ''null''"
| "json_encode (JBool b) = (if b then ''true'' else ''false'')"
| "json_encode (JNumber n) = n"
| "json_encode (JString s) = quote s"
| "json_encode (JArray vs) = ''['' @ intersperse '','' (map json_encode vs) @ '']''"
| "json_encode (JObject ms) =
     ''{'' @ intersperse '','' (map (\<lambda>(k, v). quote k @ '':'' @ json_encode v) ms) @ ''}''"

subsection \<open>Tokens\<close>

datatype token =
    TLBrace | TRBrace | TLBracket | TRBracket | TColon | TComma
  | TString string | TNumber string | TTrue | TFalse | TNull

definition utf8_encode :: "nat \<Rightarrow> string" where
  "utf8_encode r =
     (if r < 0x80 then [char_of r]
      else if r < 0x800 then [char_of (0xC0 + r div 64), char_of (0x80 + r mod 64)]
      else if r < 0x10000 then
        [char_of (0xE0 + r div 4096), char_of (0x80 + r div 64 mod 64), char_of (0x80 + r mod 64)]
      else
        [char_of (0xF0 + r div 262144), char_of (0x80 + r div 4096 mod 64),
         char_of (0x80 + r div 64 mod 64), char_of (0x80 + r mod 64)])"

text \<open>
  The code unit that a backslash, the letter u and four hexadecimal digits at the head of
  the input stand for.
\<close>

definition getu4 :: "string \<Rightarrow> nat option" where
  "getu4 cs =
     (case cs of
        b # u # h1 # h2 # h3 # h4 # _ \<Rightarrow>
          if b = CHR 0x5C \<and> u = CHR ''u'' then
            (case (hex_value h1, hex_value h2, hex_value h3, hex_value h4) of
               (Some a, Some b, Some c, Some d) \<Rightarrow> Some (((a * 16 + b) * 16 + c) * 16 + d)
             | _ \<Rightarrow> None)
          else None
      | _ \<Rightarrow> None)"

definition is_surrogate :: "nat \<Rightarrow> bool" where
  "is_surrogate r = (0xD800 \<le> r \<and> r < 0xE000)"

definition utf16_DecodeRune :: "nat \<Rightarrow> nat \<Rightarrow> nat option" where
  "utf16_DecodeRune r1 r2 =
     (if 0xD800 \<le> r1 \<and> r1 < 0xDC00 \<and> 0xDC00 \<le> r2 \<and> r2 < 0xE000
      then Some ((r1 - 0xD800) * 1024 + (r2 - 0xDC00) + 0x10000) else None)"

text \<open>What four hexadecimal digits are needed and the input lacks them.\<close>

fun hex_error :: "string \<Rightarrow> error" where
  "hex_error [] = ErrUnexpectedEOF"
| "hex_error (c # cs) = (if hex_value c = None then SyntaxError else hex_error cs)"

text \<open>
  An escape sequence, read after its backslash: the bytes it stands for and the rest of
  the input. A surrogate half that no second half follows stands for U+FFFD.
\<close>

definition lex_escape :: "string \<Rightarrow> error + (string \<times> string)" where
  "lex_escape cs =
     (case cs of
        [] \<Rightarrow> Inl ErrUnexpectedEOF
      | e # cs' \<Rightarrow>
          if e = CHR 0x22 \<or> e = CHR 0x5C \<or> e = CHR ''/'' then Inr ([e], cs')
          else if e = CHR ''b'' then Inr ([CHR 0x08], cs')
          else if e = CHR ''f'' then Inr ([CHR 0x0C], cs')
          else if e = CHR ''n'' then Inr ([CHR 0x0A], cs')
          else if e = CHR ''r'' then Inr ([CHR 0x0D], cs')
          else if e = CHR ''t'' then Inr ([CHR 0x09], cs')
          else if e = CHR ''u'' then
            (case getu4 (CHR 0x5C # cs) of
               None \<Rightarrow> Inl (hex_error (take 4 cs'))
             | Some r \<Rightarrow>
                 if is_surrogate r then
                   (case getu4 (drop 4 cs') of
                      None \<Rightarrow> Inr (utf8_encode 0xFFFD, drop 4 cs')
                    | Some r2 \<Rightarrow>
                        (case utf16_DecodeRune r r2 of
                           None \<Rightarrow> Inr (utf8_encode 0xFFFD, drop 4 cs')
                         | Some d \<Rightarrow> Inr (utf8_encode d, drop 10 cs')))
                 else Inr (utf8_encode r, drop 4 cs'))
          else Inl SyntaxError)"

lemma lex_escape_shorter: "lex_escape cs = Inr (bs, r) \<Longrightarrow> length r < length cs"
  unfolding lex_escape_def
  by (cases cs) (auto split: if_splits option.splits)

text \<open>A string literal, read after its opening quote.\<close>

function lex_string :: "string \<Rightarrow> string \<Rightarrow> error + (string \<times> string)" where
  "lex_string acc [] = Inl ErrUnexpectedEOF"
| "lex_string acc (c # cs) =
     (if c = CHR 0x22 then Inr (rev acc, cs)
      else if c = CHR 0x5C then
        (case lex_escape cs of
           Inl e \<Rightarrow> Inl e
         | Inr (bs, r) \<Rightarrow> lex_string (rev bs @ acc) r)
      else if byte c < 32 then Inl SyntaxError
      else lex_string (c # acc) cs)"
  by pat_completeness auto
termination
  by (relation "measure (\<lambda>(acc, cs). length cs)") (auto dest: lex_escape_shorter)

text \<open>A run of digits is needed at the head of the input.\<close>

definition lex_digits :: "string \<Rightarrow> error + (string \<times> string)" where
  "lex_digits cs =
     (case cs of
        [] \<Rightarrow> Inl ErrUnexpectedEOF
      | c # _ \<Rightarrow>
          if is_digit c then Inr (takeWhile is_digit cs, dropWhile is_digit cs)
          else Inl SyntaxError)"

definition lex_int_part :: "string \<Rightarrow> error + (string \<times> string)" where
  "lex_int_part cs =
     (case cs of
        [] \<Rightarrow> Inl ErrUnexpectedEOF
      | c # cs' \<Rightarrow>
          if c = CHR ''0'' then Inr ([c], cs')
          else lex_digits cs)"

definition lex_fraction :: "string \<Rightarrow> error + (string \<times> string)" where
  "lex_fraction cs =
     (case cs of
        c # cs' \<Rightarrow>
          if c = CHR ''.'' then
            (case lex_digits cs' of Inl e \<Rightarrow> Inl e | Inr (ds, r) \<Rightarrow> Inr (c # ds, r))
          else Inr ([], cs)
      | [] \<Rightarrow> Inr ([], cs))"

definition lex_exponent :: "string \<Rightarrow> error + (string \<times> string)" where
  "lex_exponent cs =
     (case cs of
        c # cs' \<Rightarrow>
          if c = CHR ''e'' \<or> c = CHR ''E'' then
            (case cs' of
               [] \<Rightarrow> Inl ErrUnexpectedEOF
             | s # cs'' \<Rightarrow>
                 if s = CHR ''+'' \<or> s = CHR ''-'' then
                   (case lex_digits cs'' of Inl e \<Rightarrow> Inl e | Inr (ds, r) \<Rightarrow> Inr (c # s # ds, r))
                 else
                   (case lex_digits cs' of Inl e \<Rightarrow> Inl e | Inr (ds, r) \<Rightarrow> Inr (c # ds, r)))
          else Inr ([], cs)
      | [] \<Rightarrow> Inr ([], cs))"

definition lex_number :: "string \<Rightarrow> error + (string \<times> string)" where
  "lex_number cs =
     (let (sign, cs1) = (case cs of c # cs' \<Rightarrow> if c = CHR ''-'' then ([c], cs') else ([], cs)
                                   | [] \<Rightarrow> ([], cs))
      in case lex_int_part cs1 of
           Inl e \<Rightarrow> Inl e
         | Inr (ds, cs2) \<Rightarrow>
             (case lex_fraction cs2 of
                Inl e \<Rightarrow> Inl e
              | Inr (fs, cs3) \<Rightarrow>
                  (case lex_exponent cs3 of
                     Inl e \<Rightarrow> Inl e
                   | Inr (es, cs4) \<Rightarrow> Inr (sign @ ds @ fs @ es, cs4))))"

text \<open>The rest of a literal name (\<open>true\<close>, \<open>false\<close>, \<open>null\<close>) after its first letter.\<close>

fun lex_literal :: "string \<Rightarrow> token \<Rightarrow> string \<Rightarrow> error + (token \<times> string)" where
  "lex_literal [] t cs = Inr (t, cs)"
| "lex_literal (l # ls) t [] = Inl ErrUnexpectedEOF"
| "lex_literal (l # ls) t (c # cs) = (if c = l then lex_literal ls t cs else Inl SyntaxError)"

definition next_token :: "string \<Rightarrow> error + (token \<times> string)" where
  "next_token cs =
     (case dropWhile is_space cs of
        [] \<Rightarrow> Inl ErrUnexpectedEOF
      | c # r \<Rightarrow>
          if c = CHR ''{'' then Inr (TLBrace, r)
          else if c = CHR ''}'' then Inr (TRBrace, r)
          else if c = CHR ''['' then Inr (TLBracket, r)
          else if c = CHR '']'' then Inr (TRBracket, r)
          else if c = CHR '':'' then Inr (TColon, r)
          else if c = CHR '','' then Inr (TComma, r)
          else if c = CHR 0x22 then
            (case lex_string [] r of Inl e \<Rightarrow> Inl e | Inr (s, r') \<Rightarrow> Inr (TString s, r'))
          else if c = CHR ''-'' \<or> is_digit c then
            (case lex_number (c # r) of Inl e \<Rightarrow> Inl e | Inr (n, r') \<Rightarrow> Inr (TNumber n, r'))
          else if c = CHR ''t'' then lex_literal ''rue'' TTrue r
          else if c = CHR ''f'' then lex_literal ''alse'' TFalse r
          else if c = CHR ''n'' then lex_literal ''ull'' TNull r
          else Inl SyntaxError)"

subsection \<open>Values\<close>

datatype frame = InArray "json list" | InObject "(string \<times> json) list" string

datatype mode =
    WantValue
  | WantValueOrEnd
  | WantKey "(string \<times> json) list"
  | WantKeyOrEnd
  | WantColon "(string \<times> json) list" string
  | GotValue json

definition begin_value :: "frame list \<Rightarrow> token \<Rightarrow> error + (mode \<times> frame list)" where
  "begin_value st t =
     (case t of
        TString s \<Rightarrow> Inr (GotValue (JString s), st)
      | TNumber n \<Rightarrow> Inr (GotValue (JNumber n), st)
      | TTrue \<Rightarrow> Inr (GotValue (JBool True), st)
      | TFalse \<Rightarrow> Inr (GotValue (JBool False), st)
      | TNull \<Rightarrow> Inr (GotValue JNull, st)
      | TLBrace \<Rightarrow> Inr (WantKeyOrEnd, st)
      | TLBracket \<Rightarrow> Inr (WantValueOrEnd, InArray [] # st)
      | _ \<Rightarrow> Inl SyntaxError)"

fun step :: "mode \<Rightarrow> frame list \<Rightarrow> token \<Rightarrow> error + (mode \<times> frame list)" where
  "step WantValue st t = begin_value st t"
| "step WantValueOrEnd st t =
     (case (t, st) of
        (TRBracket, InArray es # st') \<Rightarrow> Inr (GotValue (JArray (rev es)), st')
      | _ \<Rightarrow> begin_value st t)"
| "step WantKeyOrEnd st t =
     (case t of
        TRBrace \<Rightarrow> Inr (GotValue (JObject []), st)
      | TString k \<Rightarrow> Inr (WantColon [] k, st)
      | _ \<Rightarrow> Inl SyntaxError)"
| "step (WantKey ms) st t =
     (case t of TString k \<Rightarrow> Inr (WantColon ms k, st) | _ \<Rightarrow> Inl SyntaxError)"
| "step (WantColon ms k) st t =
     (case t of TColon \<Rightarrow> Inr (WantValue, InObject ms k # st) | _ \<Rightarrow> Inl SyntaxError)"
| "step (GotValue v) st t =
     (case st of
        [] \<Rightarrow> Inl SyntaxError
      | InArray es # st' \<Rightarrow>
          (case t of
             TComma \<Rightarrow> Inr (WantValue, InArray (v # es) # st')
           | TRBracket \<Rightarrow> Inr (GotValue (JArray (rev (v # es))), st')
           | _ \<Rightarrow> Inl SyntaxError)
      | InObject ms k # st' \<Rightarrow>
          (case t of
             TComma \<Rightarrow> Inr (WantKey ((k, v) # ms), st')
           | TRBrace \<Rightarrow> Inr (GotValue (JObject (rev ((k, v) # ms))), st')
           | _ \<Rightarrow> Inl SyntaxError))"

lemma lex_string_shorter: "lex_string acc cs = Inr (s, r) \<Longrightarrow> length r < length cs"
proof (induction acc cs rule: lex_string.induct)
  case (1 acc)
  then show ?case by simp
next
  case (2 acc c cs)
  show ?case
  proof (cases "c = CHR 0x22")
    case True
    with "2.prems" show ?thesis by simp
  next
    case quote: False
    show ?thesis
    proof (cases "c = CHR 0x5C")
      case True
      with quote "2.prems" obtain bs r' where
        e: "lex_escape cs = Inr (bs, r')" and l: "lex_string (rev bs @ acc) r' = Inr (s, r)"
        by (auto split: sum.splits)
      from "2.IH"(1) [OF quote True e refl l] lex_escape_shorter [OF e]
      show ?thesis by simp
    next
      case False
      with quote "2.prems" have "\<not> byte c < 32" and "lex_string (c # acc) cs = Inr (s, r)"
        by (auto split: if_splits)
      with "2.IH"(2) [OF quote False] show ?thesis by fastforce
    qed
  qed
qed

lemma lex_digits_shorter: "lex_digits cs = Inr (s, r) \<Longrightarrow> length r < length cs"
  by (auto simp: lex_digits_def less_Suc_eq_le length_dropWhile_le split: list.splits if_splits)

lemma lex_int_part_shorter: "lex_int_part cs = Inr (s, r) \<Longrightarrow> length r < length cs"
  by (auto simp: lex_int_part_def split: list.splits if_splits dest: lex_digits_shorter)

lemma lex_fraction_shorter: "lex_fraction cs = Inr (s, r) \<Longrightarrow> length r \<le> length cs"
  by (fastforce simp: lex_fraction_def split: list.splits if_splits sum.splits
        dest: lex_digits_shorter)

lemma lex_exponent_shorter: "lex_exponent cs = Inr (s, r) \<Longrightarrow> length r \<le> length cs"
  by (fastforce simp: lex_exponent_def split: list.splits if_splits sum.splits
        dest: lex_digits_shorter)

lemma lex_number_shorter:
  assumes "lex_number cs = Inr (s, r)"
  shows "length r < length cs"
proof -
  obtain sg cs1 where a: "(case cs of c # cs' \<Rightarrow> if c = CHR ''-'' then ([c], cs') else ([], cs)
                                   | [] \<Rightarrow> ([], cs)) = (sg, cs1)"
    by fastforce
  then have l1: "length cs1 \<le> length cs"
    by (auto split: list.splits if_splits)
  from assms a obtain ds cs2 fs cs3 es where
    b: "lex_int_part cs1 = Inr (ds, cs2)" and c: "lex_fraction cs2 = Inr (fs, cs3)"
    and d: "lex_exponent cs3 = Inr (es, r)"
    by (auto simp: lex_number_def split: sum.splits)
  from lex_int_part_shorter [OF b] lex_fraction_shorter [OF c] lex_exponent_shorter [OF d] l1
  show ?thesis by linarith
qed

lemma lex_literal_shorter: "lex_literal ls t cs = Inr (t', r) \<Longrightarrow> length r \<le> length cs"
  by (induction ls t cs rule: lex_literal.induct) (auto split: if_splits)

lemma next_token_shorter:
  assumes "next_token cs = Inr (t, r)"
  shows "length r < length cs"
proof -
  from assms obtain c r0 where d: "dropWhile is_space cs = c # r0"
    by (auto simp: next_token_def split: list.splits)
  have "length (dropWhile is_space cs) \<le> length cs"
    by (rule length_dropWhile_le)
  with d have l0: "Suc (length r0) \<le> length cs"
    by simp
  from assms d consider
      (punct) "r = r0"
    | (str) s where "lex_string [] r0 = Inr (s, r)"
    | (num) n where "lex_number (c # r0) = Inr (n, r)"
    | (lit) ls t' where "lex_literal ls t' r0 = Inr (t, r)"
    unfolding next_token_def by (simp split: if_splits sum.splits prod.splits)
  then have "length r \<le> length r0"
  proof cases
    case punct
    then show ?thesis by simp
  next
    case str
    from lex_string_shorter [OF this] show ?thesis by simp
  next
    case num
    from lex_number_shorter [OF this] show ?thesis by simp
  next
    case lit
    from lex_literal_shorter [OF this] show ?thesis .
  qed
  with l0 show ?thesis by linarith
qed

function run :: "mode \<Rightarrow> frame list \<Rightarrow> string \<Rightarrow> error + (json \<times> string)" where
  "run m st cs =
     (case (m, st) of
        (GotValue v, []) \<Rightarrow> Inr (v, cs)
      | _ \<Rightarrow>
          (case next_token cs of
             Inl e \<Rightarrow> Inl e
           | Inr (t, r) \<Rightarrow>
               (case step m st t of
                  Inl e \<Rightarrow> Inl e
                | Inr (m', st') \<Rightarrow> run m' st' r)))"
  by pat_completeness auto
termination
  by (relation "measure (\<lambda>(m, st, cs). length cs)") (auto dest: next_token_shorter)

declare run.simps [simp del]

subsection \<open>Marshal\<close>

text \<open>
  \<^verbatim>\<open>json.Marshal\<close> takes any Go value. The values here are those the encoder
  tells apart: strings, integers, booleans, nil, slices, structs (their fields by their
  JSON names, in the order of declaration), and channels and functions, which have no
  JSON form.
\<close>

datatype go_value =
    GoString string
  | GoInt int
  | GoBool bool
  | GoNil
  | GoSlice "go_value list"
  | GoStruct "(string \<times> go_value) list"
  | GoChan
  | GoFunc

fun collect :: "(error + 'a) list \<Rightarrow> error + 'a list" where
  "collect [] = Inr []"
| "collect (Inl e # rs) = Inl e"
| "collect (Inr x # rs) = (case collect rs of Inl e \<Rightarrow> Inl e | Inr xs \<Rightarrow> Inr (x # xs))"

definition show_nat_digit :: "nat \<Rightarrow> char" where
  "show_nat_digit d = char_of (48 + d mod 10)"

fun show_nat :: "nat \<Rightarrow> string" where
  "show_nat n = (if n < 10 then [show_nat_digit n] else show_nat (n div 10) @ [show_nat_digit n])"

definition show_int :: "int \<Rightarrow> string" where
  "show_int i = (if i < 0 then CHR ''-'' # show_nat (nat (- i)) else show_nat (nat i))"

fun to_json :: "go_value \<Rightarrow> error + json" where
  "to_json (GoString s) = Inr (JString s)"
| "to_json (GoInt i) = Inr (JNumber (show_int i))"
| "to_json (GoBool b) = Inr (JBool b)"
| "to_json GoNil = Inr JNull"
| "to_json (GoSlice vs) =
     (case collect (map to_json vs) of Inl e \<Rightarrow> Inl e | Inr js \<Rightarrow> Inr (JArray js))"
| "to_json (GoStruct fs) =
     (case collect (map (\<lambda>(k, v). case to_json v of Inl e \<Rightarrow> Inl e | Inr j \<Rightarrow> Inr (k, j)) fs) of
        Inl e \<Rightarrow> Inl e
      | Inr ms \<Rightarrow> Inr (JObject ms))"
| "to_json GoChan = Inl UnsupportedTypeError"
| "to_json GoFunc = Inl UnsupportedTypeError"

definition json_Marshal :: "go_value \<Rightarrow> error + string" where
  "json_Marshal v = (case to_json v of Inl e \<Rightarrow> Inl e | Inr j \<Rightarrow> Inr (json_encode j))"

section \<open>The repository's data\<close>

text \<open>
  The structs of \<^verbatim>\<open>grant.go\<close>. \<^verbatim>\<open>part_000\<close> is an earlier revision of the same
  file: it hides \<open>Grant\<close> behind an interface and keeps a pointer to the
  \<open>CredentialsRequest\<close>; its three methods read the same, line for line.
\<close>

record CredentialsRequest =
  ClientID :: string
  ClientSecret :: string
  Audience :: string
  GrantType :: string

definition CLIENT_CREDS_GRANT_TYPE :: string where
  "CLIENT_CREDS_GRANT_TYPE = ''client_credentials''"

record clientCredsGrant =
  AccessToken :: string
  Scope :: string
  ExpiresIn :: Duration
  TokenType :: string

text \<open>The zero value that \<^verbatim>\<open>var grant clientCredsGrant\<close> declares.\<close>

definition zero_clientCredsGrant :: clientCredsGrant where
  "zero_clientCredsGrant = \<lparr>AccessToken = [], Scope = [], ExpiresIn = 0, TokenType = []\<rparr>"

text \<open>What \<^verbatim>\<open>json.Marshal\<close> sees of a \<open>CredentialsRequest\<close>: its fields under their tags.\<close>

definition CredentialsRequest_value :: "CredentialsRequest \<Rightarrow> go_value" where
  "CredentialsRequest_value c =
     GoStruct [(''client_id'', GoString (ClientID c)),
               (''client_secret'', GoString (ClientSecret c)),
               (''audience'', GoString (Audience c)),
               (''grant_type'', GoString (GrantType c))]"

subsection \<open>Decoding into a \<open>clientCredsGrant\<close>\<close>

text \<open>
  The decoder matches a key of the object with a field's tag exactly or, failing that,
  under Unicode's simple case folding: the letters of ASCII fold with their other case,
  U+017F (bytes C5 BF) with s and U+212A (bytes E2 84 AA) with k.
\<close>

definition to_lower :: "char \<Rightarrow> char" where
  "to_lower c = (if 65 \<le> byte c \<and> byte c \<le> 90 then char_of (byte c + 32) else c)"

fun fold_name :: "string \<Rightarrow> string" where
  "fold_name [] = []"
| "fold_name (c # cs) =
     (if c = CHR 0xC5 \<and> take 1 cs = [CHR 0xBF] then CHR ''s'' # fold_name (drop 1 cs)
      else if c = CHR 0xE2 \<and> take 2 cs = [CHR 0x84, CHR 0xAA] then CHR ''k'' # fold_name (drop 2 cs)
      else to_lower c # fold_name cs)"

definition clientCredsGrant_fields :: "string list" where
  "clientCredsGrant_fields = [''access_token'', ''scope'', ''expires_in'', ''token_type'']"

definition find_field :: "string \<Rightarrow> string option" where
  "find_field key =
     (if key \<in> set clientCredsGrant_fields then Some key
      else find (\<lambda>f. fold_name f = fold_name key) clientCredsGrant_fields)"

definition json_kind :: "json \<Rightarrow> string" where
  "json_kind v =
     (case v of
        JNull \<Rightarrow> ''null''
      | JBool _ \<Rightarrow> ''bool''
      | JNumber _ \<Rightarrow> ''number''
      | JString _ \<Rightarrow> ''string''
      | JArray _ \<Rightarrow> ''array''
      | JObject _ \<Rightarrow> ''object'')"

text \<open>
  \<^verbatim>\<open>strconv.ParseInt(s, 10, 64)\<close> on the literal of a JSON number: a sign and digits
  only, and a value that an \<^verbatim>\<open>int64\<close> holds.
\<close>

definition digits_value :: "string \<Rightarrow> int" where
  "digits_value ds = foldl (\<lambda>n c. 10 * n + (int (byte c) - 48)) 0 ds"

definition parse_int64 :: "string \<Rightarrow> int option" where
  "parse_int64 s =
     (let (neg, ds) = (case s of c # r \<Rightarrow> if c = CHR ''-'' then (True, r) else (False, s)
                               | [] \<Rightarrow> (False, s));
          v = (if neg then - digits_value ds else digits_value ds)
      in if ds = [] \<or> \<not> list_all is_digit ds then None
         else if - 9223372036854775808 \<le> v \<and> v \<le> 9223372036854775807 then Some v
         else None)"

text \<open>
  A string field takes a JSON string, the \<^verbatim>\<open>time.Duration\<close> field (an \<^verbatim>\<open>int64\<close>) a
  JSON number that \<open>parse_int64\<close> reads; \<open>null\<close> leaves either as it is; anything
  else is an \<open>UnmarshalTypeError\<close>.
\<close>

definition set_string ::
  "string \<Rightarrow> json \<Rightarrow> (string \<Rightarrow> clientCredsGrant) \<Rightarrow> clientCredsGrant \<Rightarrow> error + clientCredsGrant" where
  "set_string f v upd c =
     (case v of
        JNull \<Rightarrow> Inr c
      | JString s \<Rightarrow> Inr (upd s)
      | _ \<Rightarrow> Inl (UnmarshalTypeError (json_kind v) f))"

definition set_int64 ::
  "string \<Rightarrow> json \<Rightarrow> (Duration \<Rightarrow> clientCredsGrant) \<Rightarrow> clientCredsGrant \<Rightarrow> error + clientCredsGrant" where
  "set_int64 f v upd c =
     (case v of
        JNull \<Rightarrow> Inr c
      | JNumber s \<Rightarrow>
          (case parse_int64 s of
             None \<Rightarrow> Inl (UnmarshalTypeError (''number '' @ s) f)
           | Some i \<Rightarrow> Inr (upd (word_of_int i)))
      | _ \<Rightarrow> Inl (UnmarshalTypeError (json_kind v) f))"

definition set_field :: "string \<Rightarrow> json \<Rightarrow> clientCredsGrant \<Rightarrow> error + clientCredsGrant" where
  "set_field f v c =
     (if f = ''access_token'' then set_string f v (\<lambda>s. c\<lparr>AccessToken := s\<rparr>) c
      else if f = ''scope'' then set_string f v (\<lambda>s. c\<lparr>Scope := s\<rparr>) c
      else if f = ''expires_in'' then set_int64 f v (\<lambda>d. c\<lparr>ExpiresIn := d\<rparr>) c
      else set_string f v (\<lambda>s. c\<lparr>TokenType := s\<rparr>) c)"

text \<open>
  The members of an object in their order: a key that matches no field is skipped, a
  later member overwrites an earlier one. The library goes on after a type error and
  reports the first one at the end; the struct it was filling is dropped then, so the
  model stops at that error.
\<close>

fun decode_members :: "(string \<times> json) list \<Rightarrow> clientCredsGrant \<Rightarrow> error + clientCredsGrant" where
  "decode_members [] c = Inr c"
| "decode_members ((k, v) # ms) c =
     (case find_field k of
        None \<Rightarrow> decode_members ms c
      | Some f \<Rightarrow>
          (case set_field f v c of
             Inl e \<Rightarrow> Inl e
           | Inr c' \<Rightarrow> decode_members ms c'))"

definition decode_value :: "json \<Rightarrow> clientCredsGrant \<Rightarrow> error + clientCredsGrant" where
  "decode_value v c =
     (case v of
        JObject ms \<Rightarrow> decode_members ms c
      | JNull \<Rightarrow> Inr c
      | _ \<Rightarrow> Inl (UnmarshalTypeError (json_kind v) []))"

section \<open>The world around the program\<close>

text \<open>
  A response body is an \<^verbatim>\<open>io.ReadCloser\<close>: the bytes it hands out, and the failure
  (by its message) that ends the reading in place of the end of the stream, if any.
\<close>

record ReadCloser =
  delivered :: string
  failure :: "string option"

definition ioutil_ReadAll :: "ReadCloser \<Rightarrow> string \<times> error option" where
  "ioutil_ReadAll r = (delivered r, map_option NetError (failure r))"

definition read_end :: "ReadCloser \<Rightarrow> error \<Rightarrow> error" where
  "read_end r at_eof = (case failure r of None \<Rightarrow> at_eof | Some m \<Rightarrow> NetError m)"

definition is_scalar :: "json \<Rightarrow> bool" where
  "is_scalar v = (case v of JArray _ \<Rightarrow> False | JObject _ \<Rightarrow> False | _ \<Rightarrow> True)"

text \<open>
  \<^verbatim>\<open>json.NewDecoder(r).Decode(&grant)\<close>: the first JSON value of the stream is read and
  stored; what follows it is not looked at. An object or an array ends with its closing
  bracket; any other value ends with the byte after it or with the end of the stream, so
  a failing reader fails it when it is the last thing delivered.
\<close>

definition json_Decode :: "ReadCloser \<Rightarrow> clientCredsGrant \<Rightarrow> error + clientCredsGrant" where
  "json_Decode r c =
     (if dropWhile is_space (delivered r) = [] then Inl (read_end r EOF)
      else
        (case run WantValue [] (delivered r) of
           Inl e \<Rightarrow> Inl (if e = ErrUnexpectedEOF then read_end r ErrUnexpectedEOF else e)
         | Inr (v, rest) \<Rightarrow>
             if is_scalar v \<and> rest = [] \<and> failure r \<noteq> None
             then Inl (read_end r ErrUnexpectedEOF)
             else decode_value v c))"

record Request =
  Method :: string
  URL :: string
  ContentType :: string
  Payload :: string

record Response =
  Status :: string
  StatusCode :: int
  Body :: ReadCloser

definition http_StatusOK :: int where
  "http_StatusOK = 200"

text \<open>
  What the program cannot see from inside: the system clock (its reading at the k-th
  observation of time), how many observations were made, the network (what the k-th
  POST meets: a transport failure or a response), and the POSTs issued so far, oldest
  first.
\<close>

record world =
  system_clock :: "nat \<Rightarrow> Time"
  now_calls :: nat
  network :: "nat \<Rightarrow> Request \<Rightarrow> error + Response"
  posts :: "Request list"

definition time_Now :: "world \<Rightarrow> Time" where
  "time_Now w = system_clock w (now_calls w)"

definition http_Post :: "string \<Rightarrow> string \<Rightarrow> string \<Rightarrow> world \<Rightarrow> (error + Response) \<times> world" where
  "http_Post url contentType body w =
     (let req = \<lparr>Method = ''POST'', URL = url, ContentType = contentType, Payload = body\<rparr>
      in (network w (length (posts w)) req, w\<lparr>posts := posts w @ [req]\<rparr>))"

section \<open>The program\<close>

text \<open>
  The time source \<open>nowFn\<close> is a \<^verbatim>\<open>func() time.Time\<close>: what it returns is read off the
  world, and each call is one more observation of time. The methods take the receiver and
  the world and return them with their results. Closing the response body
  (\<^verbatim>\<open>defer resp.Body.Close()\<close>) changes nothing that the program looks at afterwards
  and is left out.
\<close>

record Grant =
  grant :: "clientCredsGrant option"
  issuedAt :: Time
  tokenURL :: string
  credRequest :: CredentialsRequest
  nowFn :: "world \<Rightarrow> Time"

definition call_nowFn :: "Grant \<Rightarrow> world \<Rightarrow> Time \<times> world" where
  "call_nowFn g w = (nowFn g w, w\<lparr>now_calls := Suc (now_calls w)\<rparr>)"

definition NewGrant :: "string \<Rightarrow> CredentialsRequest \<Rightarrow> Grant" where
  "NewGrant url req =
     \<lparr>grant = None, issuedAt = time_zero, tokenURL = url, credRequest = req, nowFn = time_Now\<rparr>"

definition needsRenew :: "Grant \<Rightarrow> world \<Rightarrow> bool \<times> world" where
  "needsRenew g w =
     (case grant g of
        None \<Rightarrow> (True, w)
      | Some c \<Rightarrow>
          (let expires = time_Add (issuedAt g) (ExpiresIn c);
               (now, w') = call_nowFn g w
           in (time_After now expires, w')))"

definition renewGrant :: "Grant \<Rightarrow> world \<Rightarrow> error option \<times> Grant \<times> world" where
  "renewGrant g w =
     (case json_Marshal (CredentialsRequest_value (credRequest g)) of
        Inl err \<Rightarrow> (Some (errors_Wrap err ''json encode cred request''), g, w)
      | Inr payload \<Rightarrow>
          (case http_Post (tokenURL g) ''application/json'' payload w of
             (Inl err, w1) \<Rightarrow> (Some (errors_Wrap err ''cred http request''), g, w1)
           | (Inr resp, w1) \<Rightarrow>
               if StatusCode resp \<noteq> http_StatusOK then
                 (let body = fst (ioutil_ReadAll (Body resp))
                  in (Some (errors_Errorf (''response status: '' @ Status resp @ '', body: '' @ body)),
                      g, w1))
               else
                 (case json_Decode (Body resp) zero_clientCredsGrant of
                    Inl err \<Rightarrow> (Some (errors_Wrap err ''decode grant from response''), g, w1)
                  | Inr decoded \<Rightarrow>
                      (let renewed = decoded\<lparr>ExpiresIn := ExpiresIn decoded * time_Second\<rparr>;
                           (now, w2) = call_nowFn g w1
                       in (None, g\<lparr>issuedAt := now, grant := Some renewed\<rparr>, w2)))))"

text \<open>
  A call returns its pair of results, or panics: \<^verbatim>\<open>g.grant.AccessToken\<close> dereferences
  the stored pointer.
\<close>

datatype 'a outcome = Returns 'a | Panics

definition GetAccessToken :: "Grant \<Rightarrow> world \<Rightarrow> (string \<times> error option) outcome \<times> Grant \<times> world" where
  "GetAccessToken g w =
     (let (stale, w1) = needsRenew g w;
          (err, g2, w2) = (if stale then renewGrant g w1 else (None, g, w1))
      in case err of
           Some e \<Rightarrow> (Returns ([], Some (errors_Wrap e ''renew grant'')), g2, w2)
         | None \<Rightarrow>
             (case grant g2 of
                None \<Rightarrow> (Panics, g2, w2)
              | Some c \<Rightarrow> (Returns (AccessToken c, None), g2, w2)))"

section \<open>The fixtures of the tests\<close>

text \<open>
  \<^verbatim>\<open>grant_test.go\<close>: the response the test server writes, the grant the tests expect
  of it, the request they send, and the test server as a world: whatever it is sent, it
  answers 200 with \<open>testGrantResponse\<close>. \<open>failingServer\<close> is the server of the
  scenario of a response that is not 200, \<open>emptyObjectServer\<close> answers 200 with the
  empty object, and no POST reaches \<open>unreachableServer\<close>.
\<close>

definition testGrantResponse :: string where
  \<open>testGrantResponse =
     ''{"access_token":"open-sesame","scope":"u-cant-touch-dis","expires_in":1,"token_type":"Bearer"}''\<close>

definition testGrant :: clientCredsGrant where
  "testGrant = \<lparr>AccessToken = ''open-sesame'', Scope = ''u-cant-touch-dis'',
                 ExpiresIn = time_Second, TokenType = ''Bearer''\<rparr>"

definition testCredRequest :: CredentialsRequest where
  "testCredRequest = \<lparr>ClientID = ''joe-blow-id'', ClientSecret = ''joe-blow-secret'',
                       Audience = ''https://api.blowcorp.co/'',
                       GrantType = CLIENT_CREDS_GRANT_TYPE\<rparr>"

definition serverWorld :: "int \<Rightarrow> string \<Rightarrow> string \<Rightarrow> world" where
  "serverWorld code status body =
     \<lparr>system_clock = (\<lambda>k. 0), now_calls = 0,
      network = (\<lambda>k req. Inr \<lparr>Status = status, StatusCode = code,
                                Body = \<lparr>delivered = body, failure = None\<rparr>\<rparr>),
      posts = []\<rparr>"

definition testGrantServer :: world where
  "testGrantServer = serverWorld 200 ''200 OK'' testGrantResponse"

definition failingServer :: world where
  "failingServer = serverWorld 500 ''500 Internal Server Error'' ''server error''"

definition emptyObjectServer :: world where
  "emptyObjectServer = serverWorld 200 ''200 OK'' ''{}''"

definition unreachableServer :: world where
  "unreachableServer =
     \<lparr>system_clock = (\<lambda>k. 0), now_calls = 0,
      network = (\<lambda>k req. Inl (NetError ''connection refused'')),
      posts = []\<rparr>"

text \<open>The time source of the tests: \<^verbatim>\<open>testNowFn(offset)\<close>.\<close>

definition testNowFn :: "int \<Rightarrow> world \<Rightarrow> Time" where
  "testNowFn offset w = time_Unix offset 0"

definition testNewGrant :: "string \<Rightarrow> (world \<Rightarrow> Time) \<Rightarrow> Grant" where
  "testNewGrant url now = (NewGrant url testCredRequest)\<lparr>nowFn := now\<rparr>"

text \<open>
  The tests set a cache up by hand: \<^verbatim>\<open>req.grant = &testGrant\<close> and
  \<^verbatim>\<open>req.issuedAt = time.Unix(1, 0)\<close>.
\<close>

definition cachedGrant :: "(world \<Rightarrow> Time) \<Rightarrow> Grant" where
  "cachedGrant now =
     (testNewGrant ''https://myapp.auth0.com/oauth/token/'' now)
       \<lparr>grant := Some testGrant, issuedAt := time_Unix 1 0\<rparr>"

section \<open>How the three methods run\<close>

lemma json_Marshal_CredentialsRequest:
  "json_Marshal (CredentialsRequest_value c) =
     Inr (json_encode (JObject [(''client_id'', JString (ClientID c)),
                                (''client_secret'', JString (ClientSecret c)),
                                (''audience'', JString (Audience c)),
                                (''grant_type'', JString (GrantType c))]))"
  by (simp add: json_Marshal_def CredentialsRequest_value_def)

lemma needsRenew_None: "grant g = None \<Longrightarrow> needsRenew g w = (True, w)"
  by (simp add: needsRenew_def)

lemma needsRenew_Some:
  "grant g = Some c \<Longrightarrow>
   needsRenew g w = (issuedAt g + sint (ExpiresIn c) < nowFn g w, w\<lparr>now_calls := Suc (now_calls w)\<rparr>)"
  by (simp add: needsRenew_def call_nowFn_def time_Add_def time_After_def)

lemma renewGrant_transport:
  assumes "json_Marshal (CredentialsRequest_value (credRequest g)) = Inr payload"
    and "network w (length (posts w))
           \<lparr>Method = ''POST'', URL = tokenURL g, ContentType = ''application/json'', Payload = payload\<rparr>
         = Inl err"
  shows "renewGrant g w =
     (Some (WithMessage err ''cred http request''), g,
      w\<lparr>posts := posts w @ [\<lparr>Method = ''POST'', URL = tokenURL g,
                               ContentType = ''application/json'', Payload = payload\<rparr>]\<rparr>)"
  using assms by (simp add: renewGrant_def http_Post_def errors_Wrap_def)

lemma renewGrant_status:
  assumes "json_Marshal (CredentialsRequest_value (credRequest g)) = Inr payload"
    and "network w (length (posts w))
           \<lparr>Method = ''POST'', URL = tokenURL g, ContentType = ''application/json'', Payload = payload\<rparr>
         = Inr resp"
    and "StatusCode resp \<noteq> 200"
  shows "renewGrant g w =
     (Some (Fundamental (''response status: '' @ Status resp @ '', body: '' @ delivered (Body resp))), g,
      w\<lparr>posts := posts w @ [\<lparr>Method = ''POST'', URL = tokenURL g,
                               ContentType = ''application/json'', Payload = payload\<rparr>]\<rparr>)"
  using assms
  by (simp add: renewGrant_def http_Post_def errors_Errorf_def http_StatusOK_def ioutil_ReadAll_def)

lemma renewGrant_decode_error:
  assumes "json_Marshal (CredentialsRequest_value (credRequest g)) = Inr payload"
    and "network w (length (posts w))
           \<lparr>Method = ''POST'', URL = tokenURL g, ContentType = ''application/json'', Payload = payload\<rparr>
         = Inr resp"
    and "StatusCode resp = 200"
    and "json_Decode (Body resp) zero_clientCredsGrant = Inl err"
  shows "renewGrant g w =
     (Some (WithMessage err ''decode grant from response''), g,
      w\<lparr>posts := posts w @ [\<lparr>Method = ''POST'', URL = tokenURL g,
                               ContentType = ''application/json'', Payload = payload\<rparr>]\<rparr>)"
  using assms
  by (simp add: renewGrant_def http_Post_def errors_Wrap_def http_StatusOK_def)

lemma renewGrant_success:
  assumes "json_Marshal (CredentialsRequest_value (credRequest g)) = Inr payload"
    and "network w (length (posts w))
           \<lparr>Method = ''POST'', URL = tokenURL g, ContentType = ''application/json'', Payload = payload\<rparr>
         = Inr resp"
    and "StatusCode resp = 200"
    and "json_Decode (Body resp) zero_clientCredsGrant = Inr d"
  shows "renewGrant g w =
     (None,
      g\<lparr>issuedAt := nowFn g (w\<lparr>posts := posts w @ [\<lparr>Method = ''POST'', URL = tokenURL g,
                               ContentType = ''application/json'', Payload = payload\<rparr>]\<rparr>),
        grant := Some (d\<lparr>ExpiresIn := ExpiresIn d * time_Second\<rparr>)\<rparr>,
      w\<lparr>now_calls := Suc (now_calls w),
        posts := posts w @ [\<lparr>Method = ''POST'', URL = tokenURL g,
                               ContentType = ''application/json'', Payload = payload\<rparr>]\<rparr>)"
  using assms
  by (simp add: renewGrant_def http_Post_def http_StatusOK_def call_nowFn_def)

lemma GetAccessToken_fresh:
  assumes "grant g = Some c" and "nowFn g w \<le> issuedAt g + sint (ExpiresIn c)"
  shows "GetAccessToken g w = (Returns (AccessToken c, None), g, w\<lparr>now_calls := Suc (now_calls w)\<rparr>)"
  using assms by (simp add: GetAccessToken_def needsRenew_Some)

lemma GetAccessToken_stale:
  assumes "fst (needsRenew g w)"
  shows "GetAccessToken g w =
     (case renewGrant g (snd (needsRenew g w)) of
        (Some e, g2, w2) \<Rightarrow> (Returns ([], Some (WithMessage e ''renew grant'')), g2, w2)
      | (None, g2, w2) \<Rightarrow>
          (case grant g2 of None \<Rightarrow> (Panics, g2, w2)
                          | Some c \<Rightarrow> (Returns (AccessToken c, None), g2, w2)))"
proof -
  obtain b w1 where n: "needsRenew g w = (b, w1)"
    by (cases "needsRenew g w")
  with assms have b: "b" by simp
  obtain err g2 w2 where r: "renewGrant g w1 = (err, g2, w2)"
    by (cases "renewGrant g w1")
  show ?thesis
    using n b r by (simp add: GetAccessToken_def errors_Wrap_def split: option.splits)
qed

text \<open>A renewal changes the stored state only when it succeeds, and then it stores a grant.\<close>

lemma renewGrant_outcome:
  assumes "renewGrant g w = (err, g2, w2)"
  shows "(err \<noteq> None \<longrightarrow> g2 = g) \<and> (err = None \<longrightarrow> grant g2 \<noteq> None)"
  using assms
  by (auto simp: renewGrant_def http_Post_def call_nowFn_def Let_def
           split: sum.splits if_splits prod.splits)

lemma GetAccessToken_error:
  assumes "GetAccessToken g w = (Returns (tok, Some e), g', w')"
  shows "tok = [] \<and> g' = g \<and> (\<exists>cause. e = WithMessage cause ''renew grant'')"
proof -
  obtain b w1 where n: "needsRenew g w = (b, w1)"
    by (cases "needsRenew g w")
  show ?thesis
  proof (cases b)
    case False
    with n assms show ?thesis
      by (simp add: GetAccessToken_def split: option.splits)
  next
    case True
    obtain err g2 w2 where r: "renewGrant g w1 = (err, g2, w2)"
      by (cases "renewGrant g w1")
    from renewGrant_outcome [OF r] n True r assms show ?thesis
      by (auto simp: GetAccessToken_def errors_Wrap_def split: option.splits)
  qed
qed

lemma GetAccessToken_no_panic: "fst (GetAccessToken g w) \<noteq> Panics"
proof -
  obtain b w1 where n: "needsRenew g w = (b, w1)"
    by (cases "needsRenew g w")
  show ?thesis
  proof (cases b)
    case False
    with n have "grant g \<noteq> None"
      by (auto simp: needsRenew_def split: option.splits)
    with n False show ?thesis
      by (auto simp: GetAccessToken_def split: option.splits)
  next
    case True
    obtain err g2 w2 where r: "renewGrant g w1 = (err, g2, w2)"
      by (cases "renewGrant g w1")
    from renewGrant_outcome [OF r] n True r show ?thesis
      by (auto simp: GetAccessToken_def split: option.splits)
  qed
qed

lemma needsRenew_network: "network (snd (needsRenew g w)) = network w"
  by (simp add: needsRenew_def call_nowFn_def split: option.splits)

lemma needsRenew_posts: "posts (snd (needsRenew g w)) = posts w"
  by (simp add: needsRenew_def call_nowFn_def split: option.splits)

lemma GetAccessToken_posts:
  "posts (snd (snd (GetAccessToken g w))) =
     (if fst (needsRenew g w) then posts (snd (snd (renewGrant g (snd (needsRenew g w))))) else posts w)"
proof -
  obtain b w1 where n: "needsRenew g w = (b, w1)"
    by (cases "needsRenew g w")
  obtain err g2 w2 where r: "renewGrant g w1 = (err, g2, w2)"
    by (cases "renewGrant g w1")
  from needsRenew_posts [of g w] n have "posts w1 = posts w" by simp
  with n r show ?thesis
    by (simp add: GetAccessToken_def split: option.splits)
qed

lemma renewGrant_posts:
  assumes "json_Marshal (CredentialsRequest_value (credRequest g)) = Inr payload"
  shows "posts (snd (snd (renewGrant g w))) =
           posts w @ [\<lparr>Method = ''POST'', URL = tokenURL g, ContentType = ''application/json'',
                        Payload = payload\<rparr>]"
  using assms
  by (simp add: renewGrant_def http_Post_def Let_def call_nowFn_def split: sum.splits prod.splits)

lemma testGrantResponse_decodes:
  "json_Decode \<lparr>delivered = testGrantResponse, failure = None\<rparr> zero_clientCredsGrant =
     Inr \<lparr>AccessToken = ''open-sesame'', Scope = ''u-cant-touch-dis'', ExpiresIn = 1,
          TokenType = ''Bearer''\<rparr>"
  by code_simp

lemma testCredRequest_payload:
  \<open>json_Marshal (CredentialsRequest_value testCredRequest) =
     Inr ''{"client_id":"joe-blow-id","client_secret":"joe-blow-secret","audience":"https://api.blowcorp.co/","grant_type":"client_credentials"}''\<close>
  by code_simp

lemma run_needs_input:
  assumes "dropWhile is_space cs = []"
  shows "run WantValue [] cs = Inl ErrUnexpectedEOF"
  using assms by (subst run.simps) (simp add: next_token_def del: dropWhile_eq_Nil_conv)

lemma decode_members_unknown:
  "\<forall>k\<in>fst ` set ms. find_field k = None \<Longrightarrow> decode_members ms c = Inr c"
  by (induction ms c rule: decode_members.induct) auto

lemma json_Decode_unknown_members:
  assumes "run WantValue [] (delivered b) = Inr (JObject ms, rest)"
    and "\<forall>k\<in>fst ` set ms. find_field k = None"
  shows "json_Decode b c = Inr c"
proof -
  from assms(1) run_needs_input [of "delivered b"] have "dropWhile is_space (delivered b) \<noteq> []"
    by auto
  with assms show ?thesis
    by (simp add: json_Decode_def is_scalar_def decode_value_def decode_members_unknown)
qed

lemma testGrantServer_network:
  "network testGrantServer k r =
     Inr \<lparr>Status = ''200 OK'', StatusCode = 200,
          Body = \<lparr>delivered = testGrantResponse, failure = None\<rparr>\<rparr>"
  by (simp add: testGrantServer_def serverWorld_def)

lemma testNewGrant_stale:
  "fst (needsRenew (testNewGrant ''https://myapp.auth0.com/oauth/token/'' (testNowFn 1)) w)"
  by (simp add: testNewGrant_def NewGrant_def needsRenew_def)

section \<open>Reading back what the encoder writes\<close>

text \<open>
  A string of ASCII bytes that \<open>quote\<close> has written is read back by \<open>lex_string\<close>
  as it was, and so the body of a request, read by \<open>run\<close>, is the object it was
  made from.
\<close>

lemma hex_digits_table: "list_all (\<lambda>j. hex_value (hex_digit j) = Some j) [0..<16]"
  by code_simp

lemma hex_value_hex_digit: "hex_value (hex_digit k) = Some (k mod 16)"
proof -
  have "k mod 16 \<in> set [0..<16]" by simp
  with hex_digits_table have "hex_value (hex_digit (k mod 16)) = Some (k mod 16)"
    unfolding list_all_iff by blast
  then show ?thesis by (simp add: hex_digit_def)
qed

lemma hex_value_zero: "hex_value (CHR ''0'') = Some 0"
  by (simp add: hex_value_def byte_def)

lemma getu4_escape:
  assumes "n < 256"
  shows "getu4 (CHR 0x5C # CHR ''u'' # CHR ''0'' # CHR ''0'' # hex_digit (n div 16) # hex_digit n # rest)
           = Some n"
proof -
  from assms have "n div 16 mod 16 = n div 16" by simp
  then show ?thesis
    by (simp add: getu4_def hex_value_hex_digit hex_value_zero)
qed

lemma byte_less: "byte c < 256"
  by (simp add: byte_def)

lemma char_of_byte: "char_of (byte c) = c"
  by (simp add: byte_def)

lemma lex_string_plain:
  assumes "c \<noteq> CHR 0x22" "c \<noteq> CHR 0x5C" "\<not> byte c < 32"
  shows "lex_string acc (c # rest) = lex_string (c # acc) rest"
  using assms by simp

lemma lex_string_unicode_escape:
  assumes "byte c < 128"
  shows "lex_string acc (CHR 0x5C # CHR ''u'' # CHR ''0'' # CHR ''0'' # hex_digit (byte c div 16)
                          # hex_digit (byte c) # rest) = lex_string (c # acc) rest"
proof -
  have "lex_escape (CHR ''u'' # CHR ''0'' # CHR ''0'' # hex_digit (byte c div 16)
                          # hex_digit (byte c) # rest) = Inr ([c], rest)"
    using assms
    by (simp add: lex_escape_def getu4_escape [OF byte_less] is_surrogate_def utf8_encode_def
          char_of_byte)
  then show ?thesis by simp
qed

lemma lex_string_escape_byte:
  assumes "byte c < 128"
  shows "lex_string acc (escape_byte c @ rest) = lex_string (c # acc) rest"
proof -
  consider (quote) "c = CHR 0x22 \<or> c = CHR 0x5C"
    | (nl) "c = CHR 0x0A" | (cr) "c = CHR 0x0D" | (tab) "c = CHR 0x09"
    | (uni) "c \<noteq> CHR 0x22" "c \<noteq> CHR 0x5C" "c \<noteq> CHR 0x0A" "c \<noteq> CHR 0x0D" "c \<noteq> CHR 0x09"
            "byte c < 32 \<or> c = CHR ''<'' \<or> c = CHR ''>'' \<or> c = CHR ''&''"
    | (plain) "c \<noteq> CHR 0x22" "c \<noteq> CHR 0x5C" "c \<noteq> CHR 0x0A" "c \<noteq> CHR 0x0D" "c \<noteq> CHR 0x09"
            "\<not> (byte c < 32 \<or> c = CHR ''<'' \<or> c = CHR ''>'' \<or> c = CHR ''&'')"
    by blast
  then show ?thesis
  proof cases
    case quote
    then show ?thesis by (auto simp: escape_byte_def lex_escape_def)
  next
    case nl
    then show ?thesis by (simp add: escape_byte_def lex_escape_def)
  next
    case cr
    then show ?thesis by (simp add: escape_byte_def lex_escape_def)
  next
    case tab
    then show ?thesis by (simp add: escape_byte_def lex_escape_def)
  next
    case uni
    then have "escape_byte c = [CHR 0x5C, CHR ''u'', CHR ''0'', CHR ''0'', hex_digit (byte c div 16), hex_digit (byte c)]"
      by (simp add: escape_byte_def)
    with lex_string_unicode_escape [OF assms] show ?thesis by simp
  next
    case plain
    then have "escape_byte c = [c]"
      by (simp add: escape_byte_def)
    with plain lex_string_plain [of c acc rest] show ?thesis by simp
  qed
qed

lemma lex_string_quote:
  assumes "\<forall>c\<in>set s. byte c < 128"
  shows "lex_string acc (concat (map escape_byte s) @ CHR 0x22 # rest) = Inr (rev acc @ s, rest)"
  using assms
proof (induction s arbitrary: acc)
  case Nil
  then show ?case by simp
next
  case (Cons c s)
  then have c: "byte c < 128" and s: "\<forall>c\<in>set s. byte c < 128" by simp_all
  have "lex_string acc (concat (map escape_byte (c # s)) @ CHR 0x22 # rest) =
        lex_string acc (escape_byte c @ (concat (map escape_byte s) @ CHR 0x22 # rest))"
    by simp
  also have "\<dots> = lex_string (c # acc) (concat (map escape_byte s) @ CHR 0x22 # rest)"
    by (rule lex_string_escape_byte [OF c])
  also have "\<dots> = Inr (rev (c # acc) @ s, rest)"
    by (rule Cons.IH [OF s])
  finally show ?case by simp
qed

lemma next_token_quote:
  assumes "\<forall>c\<in>set s. byte c < 128"
  shows "next_token (quote s @ rest) = Inr (TString s, rest)"
  using lex_string_quote [OF assms, of "[]" rest]
  by (simp add: next_token_def quote_def is_space_def)


lemma run_step:
  assumes "next_token cs = Inr (t, r)" and "step m st t = Inr (m', st')"
    and "st \<noteq> [] \<or> (\<forall>v. m \<noteq> GotValue v)"
  shows "run m st cs = run m' st' r"
  using assms by (subst run.simps) (auto split: mode.splits list.splits)

lemma run_done: "run (GotValue v) [] cs = Inr (v, cs)"
  by (subst run.simps) simp

lemma next_token_punct:
  "next_token (CHR ''{'' # cs) = Inr (TLBrace, cs)"
  "next_token (CHR ''}'' # cs) = Inr (TRBrace, cs)"
  "next_token (CHR '':'' # cs) = Inr (TColon, cs)"
  "next_token (CHR '','' # cs) = Inr (TComma, cs)"
  by (simp_all add: next_token_def is_space_def)

lemma run_open_object: "run WantValue st (CHR ''{'' # cs) = run WantKeyOrEnd st cs"
  by (rule run_step [OF next_token_punct(1)]) (simp_all add: begin_value_def)

lemma run_first_key:
  assumes "\<forall>c\<in>set k. byte c < 128"
  shows "run WantKeyOrEnd st (quote k @ cs) = run (WantColon [] k) st cs"
  by (rule run_step [OF next_token_quote [OF assms]]) simp_all

lemma run_next_key:
  assumes "\<forall>c\<in>set k. byte c < 128"
  shows "run (WantKey ms) st (quote k @ cs) = run (WantColon ms k) st cs"
  by (rule run_step [OF next_token_quote [OF assms]]) simp_all

lemma run_colon: "run (WantColon ms k) st (CHR '':'' # cs) = run WantValue (InObject ms k # st) cs"
  by (rule run_step [OF next_token_punct(3)]) simp_all

lemma run_string_value:
  assumes "\<forall>c\<in>set v. byte c < 128"
  shows "run WantValue st (quote v @ cs) = run (GotValue (JString v)) st cs"
  by (rule run_step [OF next_token_quote [OF assms]]) (simp_all add: begin_value_def)

lemma run_comma:
  "run (GotValue v) (InObject ms k # st) (CHR '','' # cs) = run (WantKey ((k, v) # ms)) st cs"
  by (rule run_step [OF next_token_punct(4)]) simp_all

lemma run_close_object:
  "run (GotValue v) (InObject ms k # st) (CHR ''}'' # cs) =
     run (GotValue (JObject (rev ((k, v) # ms)))) st cs"
  by (rule run_step [OF next_token_punct(2)]) simp_all

lemma ascii_tags:
  "\<forall>c\<in>set ''client_id''. byte c < 128" "\<forall>c\<in>set ''client_secret''. byte c < 128"
  "\<forall>c\<in>set ''audience''. byte c < 128" "\<forall>c\<in>set ''grant_type''. byte c < 128"
  by (simp_all add: byte_def)

lemma request_round_trip:
  assumes a: "\<forall>c\<in>set v1. byte c < 128" and b: "\<forall>c\<in>set v2. byte c < 128"
    and c: "\<forall>c\<in>set v3. byte c < 128" and d: "\<forall>c\<in>set v4. byte c < 128"
  shows "run WantValue []
           (json_encode (JObject [(''client_id'', JString v1), (''client_secret'', JString v2),
                                  (''audience'', JString v3), (''grant_type'', JString v4)])) =
         Inr (JObject [(''client_id'', JString v1), (''client_secret'', JString v2),
                       (''audience'', JString v3), (''grant_type'', JString v4)], [])"
proof -
  have "json_encode (JObject [(''client_id'', JString v1), (''client_secret'', JString v2),
                              (''audience'', JString v3), (''grant_type'', JString v4)]) =
        CHR ''{'' # quote ''client_id'' @ CHR '':'' # quote v1 @ CHR '','' #
          quote ''client_secret'' @ CHR '':'' # quote v2 @ CHR '','' #
          quote ''audience'' @ CHR '':'' # quote v3 @ CHR '','' #
          quote ''grant_type'' @ CHR '':'' # quote v4 @ ''}''"
    by simp
  then show ?thesis
    by (simp only: run_open_object run_first_key [OF ascii_tags(1)] run_colon
          run_string_value [OF a] run_comma run_next_key [OF ascii_tags(2)]
          run_string_value [OF b] run_next_key [OF ascii_tags(3)] run_string_value [OF c]
          run_next_key [OF ascii_tags(4)] run_string_value [OF d] run_close_object run_done
          rev.simps append.simps)
qed

section \<open>The claims\<close>

text \<open>
  C1. A call of \<open>GetAccessToken\<close> renews if and only if no grant is stored or the
  time source reads strictly later than \<open>issuedAt + expires_in\<close>: that is what
  \<open>needsRenew\<close> answers, and the call issues one POST when the answer is yes and none
  when it is no. In particular, with a grant stored and the time source reading at or
  before \<open>issuedAt + expires_in\<close> (the expiry instant itself included), the call
  returns the cached \<open>access_token\<close> with no error, posts nothing and leaves the stored
  state as it was; the world has seen one more reading of the clock.
\<close>

theorem staleness_predicate:
  "(fst (needsRenew g w) \<longleftrightarrow>
      grant g = None \<or> (\<exists>c. grant g = Some c \<and> issuedAt g + sint (ExpiresIn c) < nowFn g w))
   \<and> length (posts (snd (snd (GetAccessToken g w)))) =
       length (posts w) + (if fst (needsRenew g w) then 1 else 0)
   \<and> (\<forall>c. grant g = Some c \<and> nowFn g w \<le> issuedAt g + sint (ExpiresIn c) \<longrightarrow>
         GetAccessToken g w = (Returns (AccessToken c, None), g, w\<lparr>now_calls := Suc (now_calls w)\<rparr>))"
proof (intro conjI allI impI)
  show "fst (needsRenew g w) \<longleftrightarrow>
      grant g = None \<or> (\<exists>c. grant g = Some c \<and> issuedAt g + sint (ExpiresIn c) < nowFn g w)"
    by (cases "grant g") (simp_all add: needsRenew_None needsRenew_Some)
next
  have "length (posts (snd (snd (renewGrant g (snd (needsRenew g w)))))) = Suc (length (posts w))"
    by (simp add: renewGrant_posts [OF json_Marshal_CredentialsRequest] needsRenew_posts)
  then show "length (posts (snd (snd (GetAccessToken g w)))) =
       length (posts w) + (if fst (needsRenew g w) then 1 else 0)"
    by (simp add: GetAccessToken_posts)
next
  fix c
  assume "grant g = Some c \<and> nowFn g w \<le> issuedAt g + sint (ExpiresIn c)"
  then show "GetAccessToken g w = (Returns (AccessToken c, None), g, w\<lparr>now_calls := Suc (now_calls w)\<rparr>)"
    by (simp add: GetAccessToken_fresh)
qed

theorem staleness_predicate_witness:
  "nowFn (cachedGrant (testNowFn 2)) testGrantServer =
     issuedAt (cachedGrant (testNowFn 2)) + sint (ExpiresIn testGrant)
   \<and> GetAccessToken (cachedGrant (testNowFn 2)) testGrantServer =
       (Returns (''open-sesame'', None), cachedGrant (testNowFn 2), testGrantServer\<lparr>now_calls := 1\<rparr>)
   \<and> length (posts (snd (snd (GetAccessToken (cachedGrant (testNowFn 2)) testGrantServer)))) = 0"
proof -
  have g: "grant (cachedGrant (testNowFn 2)) = Some testGrant"
    by (simp add: cachedGrant_def)
  have t: "nowFn (cachedGrant (testNowFn 2)) testGrantServer =
     issuedAt (cachedGrant (testNowFn 2)) + sint (ExpiresIn testGrant)"
    by (simp add: cachedGrant_def testNewGrant_def testNowFn_def time_Unix_def testGrant_def
          time_Second_def)
  have w: "now_calls testGrantServer = 0" "posts testGrantServer = []"
    by (simp_all add: testGrantServer_def serverWorld_def)
  have a: "AccessToken testGrant = ''open-sesame''"
    by (simp add: testGrant_def)
  from staleness_predicate [of "cachedGrant (testNowFn 2)" testGrantServer] g t w a
  show ?thesis by simp
qed

text \<open>
  C2. With a grant stored whose \<open>issuedAt + expires_in\<close> is strictly before the
  reading of the time source, \<open>GetAccessToken\<close> issues exactly one POST; and when
  that renewal succeeds (a response with status 200 whose body decodes), the call returns
  the new token, \<open>issuedAt\<close> becomes what the time source reads after the response
  was decoded (its second reading in the call; nothing of the response enters it), and
  the stored grant is the decoded one, with its \<open>expires_in\<close> in seconds made a
  duration: nothing of the old grant is kept.
\<close>

theorem stale_cache_renews_once:
  assumes cached: "grant g = Some c"
    and expired: "issuedAt g + sint (ExpiresIn c) < nowFn g w"
    and payload: "json_Marshal (CredentialsRequest_value (credRequest g)) = Inr payload"
  shows "posts (snd (snd (GetAccessToken g w))) =
           posts w @ [\<lparr>Method = ''POST'', URL = tokenURL g, ContentType = ''application/json'',
                        Payload = payload\<rparr>]
       \<and> (\<forall>resp d.
            network w (length (posts w))
              \<lparr>Method = ''POST'', URL = tokenURL g, ContentType = ''application/json'',
               Payload = payload\<rparr> = Inr resp \<and>
            StatusCode resp = 200 \<and> json_Decode (Body resp) zero_clientCredsGrant = Inr d \<longrightarrow>
            GetAccessToken g w =
              (Returns (AccessToken d, None),
               g\<lparr>issuedAt :=
                    nowFn g (w\<lparr>now_calls := Suc (now_calls w),
                               posts := posts w @ [\<lparr>Method = ''POST'', URL = tokenURL g,
                                 ContentType = ''application/json'', Payload = payload\<rparr>]\<rparr>),
                  grant := Some (d\<lparr>ExpiresIn := ExpiresIn d * time_Second\<rparr>)\<rparr>,
               w\<lparr>now_calls := Suc (Suc (now_calls w)),
                  posts := posts w @ [\<lparr>Method = ''POST'', URL = tokenURL g,
                                 ContentType = ''application/json'', Payload = payload\<rparr>]\<rparr>))"
proof (intro conjI allI impI)
  let ?req = "\<lparr>Method = ''POST'', URL = tokenURL g, ContentType = ''application/json'',
               Payload = payload\<rparr>"
  let ?w1 = "w\<lparr>now_calls := Suc (now_calls w)\<rparr>"
  from cached expired have n: "needsRenew g w = (True, ?w1)"
    by (simp add: needsRenew_Some)
  then have stale: "fst (needsRenew g w)" by simp
  from stale n show "posts (snd (snd (GetAccessToken g w))) = posts w @ [?req]"
    by (simp add: GetAccessToken_posts renewGrant_posts [OF payload])
  fix resp d
  assume "network w (length (posts w)) ?req = Inr resp \<and>
            StatusCode resp = 200 \<and> json_Decode (Body resp) zero_clientCredsGrant = Inr d"
  then have a: "network ?w1 (length (posts ?w1)) ?req = Inr resp" and b: "StatusCode resp = 200"
    and c: "json_Decode (Body resp) zero_clientCredsGrant = Inr d"
    by simp_all
  from renewGrant_success [OF payload a b c] GetAccessToken_stale [OF stale] n
  show "GetAccessToken g w =
              (Returns (AccessToken d, None),
               g\<lparr>issuedAt :=
                    nowFn g (w\<lparr>now_calls := Suc (now_calls w), posts := posts w @ [?req]\<rparr>),
                  grant := Some (d\<lparr>ExpiresIn := ExpiresIn d * time_Second\<rparr>)\<rparr>,
               w\<lparr>now_calls := Suc (Suc (now_calls w)), posts := posts w @ [?req]\<rparr>)"
    by simp
qed

theorem stale_cache_renews_once_witness:
  "issuedAt (cachedGrant (testNowFn 3)) + sint (ExpiresIn testGrant)
     < nowFn (cachedGrant (testNowFn 3)) testGrantServer
   \<and> fst (GetAccessToken (cachedGrant (testNowFn 3)) testGrantServer) =
       Returns (''open-sesame'', None)
   \<and> issuedAt (fst (snd (GetAccessToken (cachedGrant (testNowFn 3)) testGrantServer))) =
       time_Unix 3 0
   \<and> grant (fst (snd (GetAccessToken (cachedGrant (testNowFn 3)) testGrantServer))) =
       Some testGrant
   \<and> length (posts (snd (snd (GetAccessToken (cachedGrant (testNowFn 3)) testGrantServer)))) = 1"
proof -
  let ?g = "cachedGrant (testNowFn 3)"
  have g: "grant ?g = Some testGrant"
    by (simp add: cachedGrant_def)
  have t: "issuedAt ?g + sint (ExpiresIn testGrant) < nowFn ?g testGrantServer"
    by (simp add: cachedGrant_def testNewGrant_def testNowFn_def time_Unix_def testGrant_def
          time_Second_def)
  have p: "json_Marshal (CredentialsRequest_value (credRequest ?g)) =
             json_Marshal (CredentialsRequest_value testCredRequest)"
    by (simp add: cachedGrant_def testNewGrant_def NewGrant_def)
  have w: "posts testGrantServer = []"
    by (simp add: testGrantServer_def serverWorld_def)
  have n: "nowFn ?g w' = time_Unix 3 0" for w'
    by (simp add: cachedGrant_def testNewGrant_def testNowFn_def)
  from stale_cache_renews_once
         [where g = ?g and w = testGrantServer, OF g t p [unfolded testCredRequest_payload]]
       testGrantServer_network testGrantResponse_decodes w n
  have "fst (GetAccessToken ?g testGrantServer) = Returns (''open-sesame'', None)
      \<and> issuedAt (fst (snd (GetAccessToken ?g testGrantServer))) = time_Unix 3 0
      \<and> grant (fst (snd (GetAccessToken ?g testGrantServer))) = Some testGrant
      \<and> length (posts (snd (snd (GetAccessToken ?g testGrantServer)))) = 1"
    by (simp add: testGrant_def)
  with t show ?thesis
    by (intro conjI) (rule t, simp_all)
qed

text \<open>
  C3. \<open>NewGrant\<close> builds a cache with no grant stored; every renewal issues exactly
  one POST, to the configured URL, with the content type \<open>application/json\<close> and the
  serialized request as its body; and with no grant stored \<open>GetAccessToken\<close> finds a
  renewal due and issues exactly that one POST.
\<close>

theorem empty_cache_renews_once:
  assumes payload: "json_Marshal (CredentialsRequest_value (credRequest g)) = Inr payload"
  shows "grant (NewGrant url cr) = None
       \<and> posts (snd (snd (renewGrant g w))) =
           posts w @ [\<lparr>Method = ''POST'', URL = tokenURL g, ContentType = ''application/json'',
                        Payload = payload\<rparr>]
       \<and> (grant g = None \<longrightarrow>
            fst (needsRenew g w) \<and>
            posts (snd (snd (GetAccessToken g w))) =
              posts w @ [\<lparr>Method = ''POST'', URL = tokenURL g, ContentType = ''application/json'',
                           Payload = payload\<rparr>])"
  by (simp add: NewGrant_def renewGrant_posts [OF payload] GetAccessToken_posts needsRenew_None)


theorem empty_cache_renews_once_witness:
  \<open>grant (testNewGrant ''https://myapp.auth0.com/oauth/token/'' (testNowFn 1)) = None
   \<and> posts (snd (snd (GetAccessToken
         (testNewGrant ''https://myapp.auth0.com/oauth/token/'' (testNowFn 1)) testGrantServer))) =
       [\<lparr>Method = ''POST'', URL = ''https://myapp.auth0.com/oauth/token/'',
         ContentType = ''application/json'',
         Payload = ''{"client_id":"joe-blow-id","client_secret":"joe-blow-secret","audience":"https://api.blowcorp.co/","grant_type":"client_credentials"}''\<rparr>]\<close>
proof -
  let ?g = "testNewGrant ''https://myapp.auth0.com/oauth/token/'' (testNowFn 1)"
  have g: "grant ?g = None" "tokenURL ?g = ''https://myapp.auth0.com/oauth/token/''"
    by (simp_all add: testNewGrant_def NewGrant_def)
  have p: "json_Marshal (CredentialsRequest_value (credRequest ?g)) =
             json_Marshal (CredentialsRequest_value testCredRequest)"
    by (simp add: testNewGrant_def NewGrant_def)
  have w: "posts testGrantServer = []"
    by (simp add: testGrantServer_def serverWorld_def)
  from empty_cache_renews_once
         [where g = ?g and w = testGrantServer, OF p [unfolded testCredRequest_payload]] g w
  show ?thesis by simp
qed

text \<open>
  C4. Every failure of a renewal reaches the caller wrapped with the context
  \<open>renew grant\<close>: a failure of the transport, a response that is not 200 and a body
  that does not decode each make \<open>GetAccessToken\<close> return the empty string and the
  wrapped error; and whatever error the call returns (a failure of the serialization
  would be one), the token beside it is empty, the error is wrapped with
  \<open>renew grant\<close>, and the stored state (the grant and \<open>issuedAt\<close>) is what it was
  before the call.
\<close>

theorem renewal_failure_propagates:
  assumes stale: "fst (needsRenew g w)"
    and payload: "json_Marshal (CredentialsRequest_value (credRequest g)) = Inr payload"
  shows "(\<forall>err. network w (length (posts w))
                 \<lparr>Method = ''POST'', URL = tokenURL g, ContentType = ''application/json'',
                  Payload = payload\<rparr> = Inl err \<longrightarrow>
            fst (GetAccessToken g w) =
              Returns ([], Some (WithMessage (WithMessage err ''cred http request'') ''renew grant'')))
       \<and> (\<forall>resp. network w (length (posts w))
                 \<lparr>Method = ''POST'', URL = tokenURL g, ContentType = ''application/json'',
                  Payload = payload\<rparr> = Inr resp \<and> StatusCode resp \<noteq> 200 \<longrightarrow>
            (\<exists>cause. fst (GetAccessToken g w) = Returns ([], Some (WithMessage cause ''renew grant''))))
       \<and> (\<forall>resp err. network w (length (posts w))
                 \<lparr>Method = ''POST'', URL = tokenURL g, ContentType = ''application/json'',
                  Payload = payload\<rparr> = Inr resp \<and> StatusCode resp = 200 \<and>
                 json_Decode (Body resp) zero_clientCredsGrant = Inl err \<longrightarrow>
            fst (GetAccessToken g w) =
              Returns ([], Some (WithMessage (WithMessage err ''decode grant from response'')
                                   ''renew grant'')))
       \<and> (\<forall>tok e. fst (GetAccessToken g w) = Returns (tok, Some e) \<longrightarrow>
            tok = [] \<and> fst (snd (GetAccessToken g w)) = g \<and>
            (\<exists>cause. e = WithMessage cause ''renew grant''))"
proof (intro conjI allI impI)
  let ?w1 = "snd (needsRenew g w)"
  let ?req = "\<lparr>Method = ''POST'', URL = tokenURL g, ContentType = ''application/json'',
                  Payload = payload\<rparr>"
  have net: "network ?w1 (length (posts ?w1)) ?req = network w (length (posts w)) ?req"
    by (simp add: needsRenew_network needsRenew_posts)
  {
    fix err
    assume "network w (length (posts w)) ?req = Inl err"
    with net have "network ?w1 (length (posts ?w1)) ?req = Inl err" by simp
    from renewGrant_transport [OF payload this] GetAccessToken_stale [OF stale]
    show "fst (GetAccessToken g w) =
              Returns ([], Some (WithMessage (WithMessage err ''cred http request'') ''renew grant''))"
      by simp
  }
  {
    fix resp
    assume "network w (length (posts w)) ?req = Inr resp \<and> StatusCode resp \<noteq> 200"
    with net have a: "network ?w1 (length (posts ?w1)) ?req = Inr resp" and b: "StatusCode resp \<noteq> 200"
      by simp_all
    from renewGrant_status [OF payload a b] GetAccessToken_stale [OF stale]
    show "\<exists>cause. fst (GetAccessToken g w) = Returns ([], Some (WithMessage cause ''renew grant''))"
      by simp
  }
  {
    fix resp err
    assume "network w (length (posts w)) ?req = Inr resp \<and> StatusCode resp = 200 \<and>
                 json_Decode (Body resp) zero_clientCredsGrant = Inl err"
    with net have a: "network ?w1 (length (posts ?w1)) ?req = Inr resp" and b: "StatusCode resp = 200"
      and c: "json_Decode (Body resp) zero_clientCredsGrant = Inl err"
      by simp_all
    from renewGrant_decode_error [OF payload a b c] GetAccessToken_stale [OF stale]
    show "fst (GetAccessToken g w) =
              Returns ([], Some (WithMessage (WithMessage err ''decode grant from response'')
                                   ''renew grant''))"
      by simp
  }
  {
    fix tok e
    assume a: "fst (GetAccessToken g w) = Returns (tok, Some e)"
    obtain g' w' where r: "GetAccessToken g w = (Returns (tok, Some e), g', w')"
      using a by (cases "GetAccessToken g w") auto
    from GetAccessToken_error [OF r] r
    show "tok = []" and "fst (snd (GetAccessToken g w)) = g"
      and "\<exists>cause. e = WithMessage cause ''renew grant''"
      by simp_all
  }
qed

theorem renewal_failure_propagates_witness:
  "fst (GetAccessToken (testNewGrant ''https://myapp.auth0.com/oauth/token/'' (testNowFn 1))
         unreachableServer) =
     Returns ([], Some (WithMessage (WithMessage (NetError ''connection refused'') ''cred http request'')
        ''renew grant''))
   \<and> fst (snd (GetAccessToken (testNewGrant ''https://myapp.auth0.com/oauth/token/'' (testNowFn 1))
         unreachableServer)) = testNewGrant ''https://myapp.auth0.com/oauth/token/'' (testNowFn 1)"
proof -
  let ?g = "testNewGrant ''https://myapp.auth0.com/oauth/token/'' (testNowFn 1)"
  have net: "network unreachableServer k r = Inl (NetError ''connection refused'')" for k r
    by (simp add: unreachableServer_def)
  from renewal_failure_propagates
         [where g = ?g and w = unreachableServer,
          OF testNewGrant_stale json_Marshal_CredentialsRequest] net
  show ?thesis by simp
qed

text \<open>
  C5. A successful renewal stores the decoded grant with its \<open>expires_in\<close>, a count
  of whole seconds, multiplied by \<^verbatim>\<open>time.Second\<close>, the 1000000000 nanoseconds of
  one second (a product of \<^verbatim>\<open>int64\<close>, so it wraps around at 64 bits). The body of
  the tests decodes to the access token \<open>open-sesame\<close> and the \<open>expires_in\<close> 1;
  the witness runs the renewal against the test server: the stored \<open>expires_in\<close> is
  1000000000 nanoseconds, one second.
\<close>

theorem expires_in_becomes_seconds:
  assumes payload: "json_Marshal (CredentialsRequest_value (credRequest g)) = Inr payload"
    and resp: "network w (length (posts w))
                 \<lparr>Method = ''POST'', URL = tokenURL g, ContentType = ''application/json'',
                  Payload = payload\<rparr> = Inr resp"
    and status: "StatusCode resp = 200"
    and decoded: "json_Decode (Body resp) zero_clientCredsGrant = Inr d"
  shows "grant (fst (snd (renewGrant g w))) = Some (d\<lparr>ExpiresIn := ExpiresIn d * 1000000000\<rparr>)
       \<and> time_Second = 1000000000
       \<and> json_Decode \<lparr>delivered = testGrantResponse, failure = None\<rparr> zero_clientCredsGrant =
           Inr \<lparr>AccessToken = ''open-sesame'', Scope = ''u-cant-touch-dis'', ExpiresIn = 1,
                TokenType = ''Bearer''\<rparr>"
  using renewGrant_success [OF payload resp status decoded] testGrantResponse_decodes
  by (simp add: time_Second_def)

theorem expires_in_becomes_seconds_witness:
  "grant (fst (snd (renewGrant (testNewGrant ''https://myapp.auth0.com/oauth/token/'' (testNowFn 1))
                     testGrantServer))) =
     Some \<lparr>AccessToken = ''open-sesame'', Scope = ''u-cant-touch-dis'',
           ExpiresIn = 1000000000, TokenType = ''Bearer''\<rparr>
   \<and> sint (1000000000 :: Duration) = 1000000000"
proof -
  let ?g = "testNewGrant ''https://myapp.auth0.com/oauth/token/'' (testNowFn 1)"
  let ?resp = "\<lparr>Status = ''200 OK'', StatusCode = 200,
                 Body = \<lparr>delivered = testGrantResponse, failure = None\<rparr>\<rparr>"
  have status: "StatusCode ?resp = 200"
    by simp
  have decoded: "json_Decode (Body ?resp) zero_clientCredsGrant =
                   Inr \<lparr>AccessToken = ''open-sesame'', Scope = ''u-cant-touch-dis'',
                        ExpiresIn = 1, TokenType = ''Bearer''\<rparr>"
    by (simp add: testGrantResponse_decodes)
  from expires_in_becomes_seconds [where g = ?g and w = testGrantServer,
         OF json_Marshal_CredentialsRequest testGrantServer_network status decoded]
  have "grant (fst (snd (renewGrant ?g testGrantServer))) =
     Some \<lparr>AccessToken = ''open-sesame'', Scope = ''u-cant-touch-dis'',
           ExpiresIn = 1000000000, TokenType = ''Bearer''\<rparr>"
    by simp
  moreover have "sint (1000000000 :: Duration) = 1000000000"
    by simp
  ultimately show ?thesis
    by (intro conjI)
qed

text \<open>
  C6. When a renewal is due and the response to its POST has a status other than 200,
  \<open>GetAccessToken\<close> fails with the error that \<^verbatim>\<open>errors.Errorf\<close> makes of the
  response's status line and of the bytes read from its body, wrapped with
  \<open>renew grant\<close>; the stored state is not changed, so no grant is stored by the call.
\<close>

theorem unexpected_status_fails:
  assumes stale: "fst (needsRenew g w)"
    and payload: "json_Marshal (CredentialsRequest_value (credRequest g)) = Inr payload"
    and resp: "network w (length (posts w))
                 \<lparr>Method = ''POST'', URL = tokenURL g, ContentType = ''application/json'',
                  Payload = payload\<rparr> = Inr resp"
    and status: "StatusCode resp \<noteq> 200"
  shows "fst (GetAccessToken g w) =
           Returns ([], Some (WithMessage
             (Fundamental (''response status: '' @ Status resp @ '', body: '' @ delivered (Body resp)))
             ''renew grant''))
         \<and> fst (snd (GetAccessToken g w)) = g"
proof -
  let ?w1 = "snd (needsRenew g w)"
  from resp have "network ?w1 (length (posts ?w1))
                 \<lparr>Method = ''POST'', URL = tokenURL g, ContentType = ''application/json'',
                  Payload = payload\<rparr> = Inr resp"
    by (simp add: needsRenew_network needsRenew_posts)
  from renewGrant_status [OF payload this status] GetAccessToken_stale [OF stale]
  show ?thesis by simp
qed

theorem unexpected_status_fails_witness:
  "fst (GetAccessToken (testNewGrant ''https://myapp.auth0.com/oauth/token/'' (testNowFn 1))
         failingServer) =
     Returns ([], Some (WithMessage
        (Fundamental ''response status: 500 Internal Server Error, body: server error'')
        ''renew grant''))
   \<and> grant (fst (snd (GetAccessToken (testNewGrant ''https://myapp.auth0.com/oauth/token/'' (testNowFn 1))
         failingServer))) = None"
proof -
  let ?g = "testNewGrant ''https://myapp.auth0.com/oauth/token/'' (testNowFn 1)"
  have net: "network failingServer k r =
               Inr \<lparr>Status = ''500 Internal Server Error'', StatusCode = 500,
                    Body = \<lparr>delivered = ''server error'', failure = None\<rparr>\<rparr>" for k r
    by (simp add: failingServer_def serverWorld_def)
  have none: "grant ?g = None"
    by (simp add: testNewGrant_def NewGrant_def)
  from unexpected_status_fails
         [where g = ?g and w = failingServer,
          OF testNewGrant_stale json_Marshal_CredentialsRequest net] none
  show ?thesis by simp
qed

text \<open>
  C7, as amended. The body of the POST of every renewal is the serialization of a JSON
  object with exactly the keys \<open>client_id\<close>, \<open>client_secret\<close>, \<open>audience\<close>
  and \<open>grant_type\<close>, in this order, whose values are the fields of the
  \<open>CredentialsRequest\<close> given to \<open>NewGrant\<close>; for fields of ASCII bytes, reading
  the body back gives that object. The value of \<open>grant_type\<close> is the field
  \<open>GrantType\<close> as the caller filled it: the program offers the constant
  \<open>CLIENT_CREDS_GRANT_TYPE\<close>, \<open>client_credentials\<close>, and does not put it there
  itself. The claim as it was written fails on a request whose \<open>GrantType\<close> is
  \<open>password\<close>: that is the value the body carries.
\<close>

theorem request_body_wire_format:
  "(let object = JObject [(''client_id'', JString (ClientID (credRequest g))),
                          (''client_secret'', JString (ClientSecret (credRequest g))),
                          (''audience'', JString (Audience (credRequest g))),
                          (''grant_type'', JString (GrantType (credRequest g)))]
    in posts (snd (snd (renewGrant g w))) =
         posts w @ [\<lparr>Method = ''POST'', URL = tokenURL g, ContentType = ''application/json'',
                      Payload = json_encode object\<rparr>]
       \<and> ((\<forall>c\<in>set (ClientID (credRequest g) @ ClientSecret (credRequest g) @
                      Audience (credRequest g) @ GrantType (credRequest g)). byte c < 128) \<longrightarrow>
            run WantValue [] (json_encode object) = Inr (object, [])))
   \<and> CLIENT_CREDS_GRANT_TYPE = ''client_credentials''"
proof -
  have "(\<forall>c\<in>set (ClientID (credRequest g) @ ClientSecret (credRequest g) @
                      Audience (credRequest g) @ GrantType (credRequest g)). byte c < 128) \<longrightarrow>
        run WantValue []
           (json_encode (JObject [(''client_id'', JString (ClientID (credRequest g))),
                          (''client_secret'', JString (ClientSecret (credRequest g))),
                          (''audience'', JString (Audience (credRequest g))),
                          (''grant_type'', JString (GrantType (credRequest g)))])) =
         Inr (JObject [(''client_id'', JString (ClientID (credRequest g))),
                          (''client_secret'', JString (ClientSecret (credRequest g))),
                          (''audience'', JString (Audience (credRequest g))),
                          (''grant_type'', JString (GrantType (credRequest g)))], [])"
  proof (rule impI)
    assume "\<forall>c\<in>set (ClientID (credRequest g) @ ClientSecret (credRequest g) @
                      Audience (credRequest g) @ GrantType (credRequest g)). byte c < 128"
    then have "\<forall>c\<in>set (ClientID (credRequest g)). byte c < 128"
      and "\<forall>c\<in>set (ClientSecret (credRequest g)). byte c < 128"
      and "\<forall>c\<in>set (Audience (credRequest g)). byte c < 128"
      and "\<forall>c\<in>set (GrantType (credRequest g)). byte c < 128"
      by simp_all
    then show "run WantValue []
           (json_encode (JObject [(''client_id'', JString (ClientID (credRequest g))),
                          (''client_secret'', JString (ClientSecret (credRequest g))),
                          (''audience'', JString (Audience (credRequest g))),
                          (''grant_type'', JString (GrantType (credRequest g)))])) =
         Inr (JObject [(''client_id'', JString (ClientID (credRequest g))),
                          (''client_secret'', JString (ClientSecret (credRequest g))),
                          (''audience'', JString (Audience (credRequest g))),
                          (''grant_type'', JString (GrantType (credRequest g)))], [])"
      by (rule request_round_trip)
  qed
  then show ?thesis
    unfolding Let_def
    by (simp only: renewGrant_posts [OF json_Marshal_CredentialsRequest]
          CLIENT_CREDS_GRANT_TYPE_def simp_thms)
qed

lemma testCredRequest_ascii:
  "\<forall>c\<in>set (ClientID testCredRequest @ ClientSecret testCredRequest @
               Audience testCredRequest @ GrantType testCredRequest). byte c < 128"
  by (simp add: testCredRequest_def CLIENT_CREDS_GRANT_TYPE_def byte_def)

theorem request_body_wire_format_witness:
  "run WantValue []
     (Payload (last (posts (snd (snd (renewGrant
        (testNewGrant ''https://myapp.auth0.com/oauth/token/'' (testNowFn 1)) testGrantServer)))))) =
   Inr (JObject [(''client_id'', JString ''joe-blow-id''),
                 (''client_secret'', JString ''joe-blow-secret''),
                 (''audience'', JString ''https://api.blowcorp.co/''),
                 (''grant_type'', JString ''client_credentials'')], [])"
proof -
  let ?g = "testNewGrant ''https://myapp.auth0.com/oauth/token/'' (testNowFn 1)"
  have c: "credRequest ?g = testCredRequest"
    by (simp add: testNewGrant_def NewGrant_def)
  from request_body_wire_format [of ?g testGrantServer] testCredRequest_ascii
  show ?thesis
    unfolding Let_def c
    by (simp add: testCredRequest_def CLIENT_CREDS_GRANT_TYPE_def)
qed

theorem grant_type_not_fixed:
  \<open>posts (snd (snd (GetAccessToken
      (NewGrant ''https://myapp.auth0.com/oauth/token/''
         \<lparr>ClientID = ''my-app-id'', ClientSecret = ''my-app-secret'',
          Audience = ''https://my-api.myapp.com/'', GrantType = ''password''\<rparr>)
      testGrantServer))) =
     [\<lparr>Method = ''POST'', URL = ''https://myapp.auth0.com/oauth/token/'',
       ContentType = ''application/json'',
       Payload = ''{"client_id":"my-app-id","client_secret":"my-app-secret","audience":"https://my-api.myapp.com/","grant_type":"password"}''\<rparr>]
   \<and> run WantValue [] ''{"client_id":"my-app-id","client_secret":"my-app-secret","audience":"https://my-api.myapp.com/","grant_type":"password"}'' =
       Inr (JObject [(''client_id'', JString ''my-app-id''),
                     (''client_secret'', JString ''my-app-secret''),
                     (''audience'', JString ''https://my-api.myapp.com/''),
                     (''grant_type'', JString ''password'')], [])
   \<and> ''password'' \<noteq> CLIENT_CREDS_GRANT_TYPE\<close>
  by code_simp

text \<open>
  C8. For every \<open>CredentialsRequest\<close> (four plain string fields) the serialization of
  the request body succeeds: \<open>json_Marshal\<close> returns a payload, and no run of
  \<open>renewGrant\<close> returns the error of the branch that handles a failure of it. (The
  encoder does fail on other values: a channel or a function.)
\<close>

theorem serialization_never_fails:
  "(\<exists>payload. json_Marshal (CredentialsRequest_value c) = Inr payload) \<and>
   fst (renewGrant g w) \<noteq> Some (errors_Wrap e ''json encode cred request'')"
proof
  show "\<exists>payload. json_Marshal (CredentialsRequest_value c) = Inr payload"
    by (simp add: json_Marshal_CredentialsRequest)
  show "fst (renewGrant g w) \<noteq> Some (errors_Wrap e ''json encode cred request'')"
    by (simp add: renewGrant_def json_Marshal_CredentialsRequest http_Post_def errors_Wrap_def
          errors_Errorf_def Let_def call_nowFn_def split: sum.splits prod.splits)
qed

lemma json_Marshal_unsupported:
  "json_Marshal GoChan = Inl UnsupportedTypeError \<and>
   json_Marshal (GoStruct [(''f'', GoFunc)]) = Inl UnsupportedTypeError"
  by (simp add: json_Marshal_def)

text \<open>
  C9. \<open>GetAccessToken\<close> never returns a token that is not empty together with an
  error: whenever the error it returns is not nil, the token is the empty string. (And it
  always returns: the dereference of the stored grant never panics.)
\<close>

theorem no_token_beside_an_error:
  "fst (GetAccessToken g w) \<noteq> Panics \<and>
   (\<forall>tok e. fst (GetAccessToken g w) = Returns (tok, Some e) \<longrightarrow> tok = [])"
proof (intro conjI allI impI)
  show "fst (GetAccessToken g w) \<noteq> Panics"
    by (rule GetAccessToken_no_panic)
next
  fix tok e
  assume a: "fst (GetAccessToken g w) = Returns (tok, Some e)"
  obtain g' w' where "GetAccessToken g w = (Returns (tok, Some e), g', w')"
    using a by (cases "GetAccessToken g w") auto
  from GetAccessToken_error [OF this] show "tok = []" by simp
qed

lemma failingServer_run:
  "fst (GetAccessToken (testNewGrant ''https://myapp.auth0.com/oauth/token/'' (testNowFn 1))
         failingServer) =
     Returns ([], Some (WithMessage
        (Fundamental ''response status: 500 Internal Server Error, body: server error'')
        ''renew grant''))"
  by code_simp

theorem no_token_beside_an_error_witness:
  "fst (GetAccessToken (testNewGrant ''https://myapp.auth0.com/oauth/token/'' (testNowFn 1))
         failingServer) =
     Returns ([], Some (WithMessage
        (Fundamental ''response status: 500 Internal Server Error, body: server error'')
        ''renew grant''))
   \<and> fst (GetAccessToken (testNewGrant ''https://myapp.auth0.com/oauth/token/'' (testNowFn 1))
         failingServer) \<noteq> Panics"
  using no_token_beside_an_error
          [of "testNewGrant ''https://myapp.auth0.com/oauth/token/'' (testNowFn 1)" failingServer]
        failingServer_run
  by simp

text \<open>
  C10. A response with status 200 whose body is a JSON object with no member that
  matches a field of the grant (the empty object is one) is not a decode error: it
  decodes to the zero grant, the renewal stores it, and \<open>GetAccessToken\<close> returns the
  empty string with no error. Nothing validates the token or \<open>expires_in\<close>.
\<close>

theorem missing_fields_are_accepted:
  assumes stale: "fst (needsRenew g w)"
    and payload: "json_Marshal (CredentialsRequest_value (credRequest g)) = Inr payload"
    and resp: "network w (length (posts w))
                 \<lparr>Method = ''POST'', URL = tokenURL g, ContentType = ''application/json'',
                  Payload = payload\<rparr> = Inr resp"
    and status: "StatusCode resp = 200"
    and object: "run WantValue [] (delivered (Body resp)) = Inr (JObject ms, rest)"
    and lacks: "\<forall>k\<in>fst ` set ms. find_field k = None"
  shows "json_Decode (Body resp) zero_clientCredsGrant = Inr zero_clientCredsGrant
       \<and> fst (GetAccessToken g w) = Returns ([], None)
       \<and> grant (fst (snd (GetAccessToken g w))) =
           Some \<lparr>AccessToken = [], Scope = [], ExpiresIn = 0, TokenType = []\<rparr>"
proof -
  let ?w1 = "snd (needsRenew g w)"
  have d: "json_Decode (Body resp) zero_clientCredsGrant = Inr zero_clientCredsGrant"
    by (rule json_Decode_unknown_members [OF object lacks])
  from resp have r: "network ?w1 (length (posts ?w1))
                 \<lparr>Method = ''POST'', URL = tokenURL g, ContentType = ''application/json'',
                  Payload = payload\<rparr> = Inr resp"
    by (simp add: needsRenew_network needsRenew_posts)
  from renewGrant_success [OF payload r status d] GetAccessToken_stale [OF stale] d
  show ?thesis
    by (simp add: zero_clientCredsGrant_def)
qed

lemma empty_object_parses: "run WantValue [] ''{}'' = Inr (JObject [], [])"
  by code_simp

theorem missing_fields_are_accepted_witness:
  "fst (GetAccessToken (testNewGrant ''https://myapp.auth0.com/oauth/token/'' (testNowFn 1))
         emptyObjectServer) = Returns ([], None)
   \<and> grant (fst (snd (GetAccessToken (testNewGrant ''https://myapp.auth0.com/oauth/token/'' (testNowFn 1))
         emptyObjectServer))) =
       Some \<lparr>AccessToken = [], Scope = [], ExpiresIn = 0, TokenType = []\<rparr>"
proof -
  let ?g = "testNewGrant ''https://myapp.auth0.com/oauth/token/'' (testNowFn 1)"
  have net: "network emptyObjectServer k r =
               Inr \<lparr>Status = ''200 OK'', StatusCode = 200,
                    Body = \<lparr>delivered = ''{}'', failure = None\<rparr>\<rparr>" for k r
    by (simp add: emptyObjectServer_def serverWorld_def)
  let ?resp = "\<lparr>Status = ''200 OK'', StatusCode = 200,
                 Body = \<lparr>delivered = ''{}'', failure = None\<rparr>\<rparr>"
  have status: "StatusCode ?resp = 200"
    by simp
  have object: "run WantValue [] (delivered (Body ?resp)) = Inr (JObject [], [])"
    by (simp add: empty_object_parses)
  have lacks: "\<forall>k\<in>fst ` set ([] :: (string \<times> json) list). find_field k = None"
    by simp
  from missing_fields_are_accepted [where g = ?g and w = emptyObjectServer,
         OF testNewGrant_stale json_Marshal_CredentialsRequest net status object lacks]
  show ?thesis by simp
qed

end
